theory Spec2Isabelle
  imports Complex_Main
begin

section \<open>The scenario modifier of RCP-Modifier\<close>

text \<open>
  A shallow embedding of \<^verbatim>\<open>modify_scenario\<close> (src/modify_scenario.py) and of the
  input checks of \<^verbatim>\<open>get_inputs_via_gui\<close> (src/climate_app.py).

  Conventions of the embedding:
  \<^item> numpy's float64 values are modelled as \<open>real\<close>: rounding is not part of the model;
  \<^item> Python's integers (years, indices) are \<open>int\<close>;
  \<^item> a raised exception is a value \<open>Inl e\<close> of the result type \<open>error + 'a\<close>;
  \<^item> a scenario (ScmRun / MAGICCData, or its wide DataFrame) is the list of its rows in
    the order the object holds them; a row is its metadata and its values along the
    time axis;
  \<^item> the library calls \<^verbatim>\<open>scenario.interpolate\<close> and \<^verbatim>\<open>pm.run\<close> are parameters of
    \<open>modify_scenario\<close>; numpy's \<^verbatim>\<open>linspace\<close>, slice assignment and the pandas /
    scmdata selections used by the source are modelled by their documented behaviour
    on the arguments the source passes;
  \<^item> scmdata refuses a data set in which two rows carry the same metadata; the model
    does not check this, so it may return a data set where the library raises, never
    the other way round.
\<close>

datatype error = ValueError | IndexError | KeyError

subsection \<open>numpy: arange, zeros, linspace, slice assignment\<close>

definition np_arange :: "int \<Rightarrow> int \<Rightarrow> int list" where
  "np_arange start stop = [start..stop - 1]"

definition np_zeros :: "nat \<Rightarrow> real list" where
  "np_zeros n = replicate n 0"

text \<open>
  \<^verbatim>\<open>np.linspace(start, stop, num)\<close> with the default \<^verbatim>\<open>endpoint=True\<close>: a negative
  \<open>num\<close> raises ValueError; \<open>num = 1\<close> gives the single sample \<open>start\<close>; otherwise
  sample \<open>k\<close> is \<open>start + k * step\<close> with \<open>step = (stop - start) / (num - 1)\<close>.
\<close>

definition np_linspace :: "real \<Rightarrow> real \<Rightarrow> int \<Rightarrow> error + real list" where
  "np_linspace start stop num =
     (if num < 0 then Inl ValueError
      else if num = 1 then Inr [start]
      else Inr (map (\<lambda>k. start + real k * ((stop - start) / real_of_int (num - 1)))
                  [0..<nat num]))"

text \<open>A bound of a Python slice on an axis of length \<open>n\<close>: negative bounds count from the
  end, and every bound is clipped to the axis.\<close>

definition slice_bound :: "nat \<Rightarrow> int \<Rightarrow> nat" where
  "slice_bound n i = (if i < 0 then nat (max 0 (int n + i)) else min n (nat i))"

text \<open>\<^verbatim>\<open>row[lo:hi] = vs\<close> for a one-dimensional array \<open>vs\<close>: the shapes must agree, or
  \<open>vs\<close> has one element, which is broadcast; anything else raises ValueError.\<close>

definition set_slice :: "real list \<Rightarrow> int \<Rightarrow> int \<Rightarrow> real list \<Rightarrow> error + real list" where
  "set_slice row lo hi vs =
     (let a = slice_bound (length row) lo;
          b = max a (slice_bound (length row) hi)
      in if length vs = b - a then Inr (take a row @ vs @ drop b row)
         else if length vs = 1 then Inr (take a row @ replicate (b - a) (hd vs) @ drop b row)
         else Inl ValueError)"

text \<open>\<^verbatim>\<open>row[lo:] = v\<close> for a scalar \<open>v\<close>.\<close>

definition fill_slice :: "real list \<Rightarrow> int \<Rightarrow> real \<Rightarrow> real list" where
  "fill_slice row lo v =
     (let a = slice_bound (length row) lo
      in take a row @ replicate (length row - a) v)"

subsection \<open>The phase schedule (modify_scenario.py, lines 69 to 79)\<close>

definition start_index :: int where
  "start_index = 25"

definition years_numeric :: "int list" where
  "years_numeric = np_arange 2000 2101"

definition target_index :: "int list \<Rightarrow> int list" where
  "target_index target_years = map (\<lambda>i. i - 2000) target_years"

definition ramp_duration :: "int list \<Rightarrow> int list" where
  "ramp_duration target_years = map (\<lambda>i. i - start_index + 1) (target_index target_years)"

text \<open>The list comprehension of line 75: \<open>range(len(r_factors))\<close> drives it, so a shorter
  \<open>ramp_duration\<close> raises IndexError and a longer one is cut.\<close>

fun scale_factor :: "real list \<Rightarrow> int list \<Rightarrow> error + real list list" where
  "scale_factor [] ds = Inr []"
| "scale_factor (r # rs) [] = Inl IndexError"
| "scale_factor (r # rs) (d # ds) =
     (case np_linspace 0 r d of
        Inl e \<Rightarrow> Inl e
      | Inr sf \<Rightarrow>
          (case scale_factor rs ds of
             Inl e \<Rightarrow> Inl e
           | Inr sfs \<Rightarrow> Inr (sf # sfs)))"

text \<open>The loop of lines 77 to 79, one row of \<open>R_phase\<close> per region: the row starts as
  zeros; the ramp is written to \<open>[start_index : target_index + 1]\<close> and the target
  fraction to \<open>[target_index + 1 :]\<close>.\<close>

fun R_phase_loop :: "real list \<Rightarrow> int list \<Rightarrow> real list list \<Rightarrow> error + real list list" where
  "R_phase_loop [] tis sfs = Inr []"
| "R_phase_loop (r # rs) (ti # tis) (sf # sfs) =
     (case set_slice (np_zeros (length years_numeric)) start_index (ti + 1) sf of
        Inl e \<Rightarrow> Inl e
      | Inr row \<Rightarrow>
          (case R_phase_loop rs tis sfs of
             Inl e \<Rightarrow> Inl e
           | Inr rows \<Rightarrow> Inr (fill_slice row (ti + 1) r # rows)))"
| "R_phase_loop (r # rs) [] sfs = Inl IndexError"
| "R_phase_loop (r # rs) (ti # tis) [] = Inl IndexError"

definition R_phase :: "real list \<Rightarrow> int list \<Rightarrow> error + real list list" where
  "R_phase r_factors target_years =
     (case scale_factor r_factors (ramp_duration target_years) of
        Inl e \<Rightarrow> Inl e
      | Inr sfs \<Rightarrow> R_phase_loop r_factors (target_index target_years) sfs)"

subsection \<open>Scenario data\<close>

record meta =
  model :: string
  scenario :: string
  region :: string
  variable :: string
  unit :: string
  climate_model :: string
  todo :: string

record ts_row =
  meta_of :: meta
  vals :: "real list"

type_synonym dataset = "ts_row list"

definition var :: string where
  "var = ''Emissions|CO2|MAGICC Fossil and Industrial''"

definition regions_to_modify :: "string list" where
  "regions_to_modify =
     [''World|R5OECD'', ''World|R5LAM'', ''World|R5MAF'', ''World|R5REF'', ''World|R5ASIA'']"

definition regions_to_replace :: "string list" where
  "regions_to_replace = ''World'' # regions_to_modify"

text \<open>\<^verbatim>\<open>REGIONS\<close> of climate_app.py, the order in which the caller builds
  \<open>r_factors\<close> and \<open>target_years\<close> (lines 226 and 227), and the order the docstring of
  \<open>modify_scenario\<close> names.\<close>

definition REGIONS :: "string list" where
  "REGIONS =
     [''World|R5LAM'', ''World|R5MAF'', ''World|R5ASIA'', ''World|R5REF'', ''World|R5OECD'']"

text \<open>scmdata's \<^verbatim>\<open>filter(variable=v, region=rs, keep=k)\<close> for names without wildcards:
  a row matches when every given criterion matches; \<open>keep=False\<close> keeps the others.
  The order of the rows is kept.\<close>

definition scm_filter :: "string option \<Rightarrow> string list \<Rightarrow> bool \<Rightarrow> dataset \<Rightarrow> dataset" where
  "scm_filter v rs keep ds =
     filter (\<lambda>row. ((case v of None \<Rightarrow> True | Some x \<Rightarrow> variable (meta_of row) = x)
                     \<and> region (meta_of row) \<in> set rs) = keep) ds"

text \<open>Lines 93 to 103: the rows of the fossil CO2 variable in Gt C / yr of every region
  but World and World|Bunkers, in the order of the data frame. A label that no row
  carries raises KeyError.\<close>

definition select_reg_C02 :: "dataset \<Rightarrow> error + dataset" where
  "select_reg_C02 new_df =
     (if list_ex (\<lambda>row. unit (meta_of row) = ''Gt C / yr'') new_df
         \<and> list_ex (\<lambda>row. variable (meta_of row) = ''Emissions|CO2|MAGICC Fossil and Industrial'') new_df
      then Inr (filter (\<lambda>row. region (meta_of row) \<notin> set [''World|Bunkers'', ''World'']
                              \<and> unit (meta_of row) = ''Gt C / yr''
                              \<and> variable (meta_of row) = ''Emissions|CO2|MAGICC Fossil and Industrial'')
                  new_df)
      else Inl KeyError)"

definition mul_row :: "ts_row \<Rightarrow> real list \<Rightarrow> ts_row" where
  "mul_row row ps = row\<lparr>vals := map2 (\<lambda>x p. x * p) (vals row) ps\<rparr>"

text \<open>Line 106, \<^verbatim>\<open>reg_C02 *= (1 - R_phase)\<close>: a data frame times a two-dimensional
  array. The shapes must be equal, row \<open>i\<close> of the frame then meets row \<open>i\<close> of the
  array; an array of one row is broadcast to every row of the frame; any other shape
  raises ValueError. The frame has one column per grid year.\<close>

definition scale_regions :: "dataset \<Rightarrow> real list list \<Rightarrow> error + dataset" where
  "scale_regions reg_C02 R =
     (let one_minus = map (map (\<lambda>p. 1 - p)) R
      in if list_all (\<lambda>row. length (vals row) = length years_numeric) reg_C02
            \<and> list_all (\<lambda>ps. length ps = length years_numeric) R
         then (if length R = length reg_C02 then Inr (map2 mul_row reg_C02 one_minus)
               else if length R = 1 then Inr (map (\<lambda>row. mul_row row (hd one_minus)) reg_C02)
               else Inl ValueError)
         else Inl ValueError)"

text \<open>Lines 112 and 133, \<^verbatim>\<open>reg_C02.sum()\<close> on the time grid: one sum per column.\<close>

definition world_co2_series :: "dataset \<Rightarrow> real list" where
  "world_co2_series reg_C02 =
     map (\<lambda>j. sum_list (map (\<lambda>row. vals row ! j) reg_C02)) [0..<length years_numeric]"

text \<open>Line 126, \<^verbatim>\<open>.set_index('region').loc[labels]\<close>: for each label in turn, the rows
  that carry it; a label that no row carries raises KeyError.\<close>

definition loc_region :: "string list \<Rightarrow> meta list \<Rightarrow> error + meta list" where
  "loc_region labels ms =
     (if list_all (\<lambda>l. list_ex (\<lambda>m. region m = l) ms) labels
      then Inr (concat (map (\<lambda>l. filter (\<lambda>m. region m = l) ms) labels))
      else Inl KeyError)"

text \<open>Lines 138 to 146, \<^verbatim>\<open>pd.DataFrame(data, index, columns)\<close>: row \<open>i\<close> of the data
  under entry \<open>i\<close> of the index; a different number of rows raises ValueError.\<close>

definition replacement_df_wide :: "meta list \<Rightarrow> real list list \<Rightarrow> error + dataset" where
  "replacement_df_wide combined_meta combined_values =
     (if length combined_meta = length combined_values
      then Inr (map2 (\<lambda>m v. \<lparr>meta_of = m, vals = v\<rparr>) combined_meta combined_values)
      else Inl ValueError)"

subsection \<open>The pipeline (modify_scenario.py, lines 69 to 149)\<close>

text \<open>\<open>adjust\<close> is the part up to line 106: the schedule, then the scaled regional
  frame \<open>reg_C02\<close>, each row still under its own metadata. \<open>new_run\<close> is the data set
  handed to the simulator, computed from the interpolated scenario \<open>scen_t\<close>.\<close>

definition adjust :: "dataset \<Rightarrow> real list \<Rightarrow> int list \<Rightarrow> error + dataset" where
  "adjust scen_t r_factors target_years =
     (case R_phase r_factors target_years of
        Inl e \<Rightarrow> Inl e
      | Inr R \<Rightarrow>
          (case select_reg_C02 scen_t of
             Inl e \<Rightarrow> Inl e
           | Inr reg_C02 \<Rightarrow> scale_regions reg_C02 R))"

definition new_run :: "dataset \<Rightarrow> real list \<Rightarrow> int list \<Rightarrow> error + dataset" where
  "new_run scen_t r_factors target_years =
     (case adjust scen_t r_factors target_years of
        Inl e \<Rightarrow> Inl e
      | Inr reg_C02 \<Rightarrow>
          (let base_run = scm_filter (Some var) regions_to_replace False scen_t;
               replacement_meta_template = scm_filter (Some var) regions_to_replace True scen_t
           in case loc_region regions_to_modify
                     (map meta_of (scm_filter None regions_to_modify True replacement_meta_template)) of
                Inl e \<Rightarrow> Inl e
              | Inr r5_meta_ordered \<Rightarrow>
                  (let world_meta = map meta_of (scm_filter None [''World''] True replacement_meta_template);
                       combined_meta = world_meta @ r5_meta_ordered;
                       combined_values = world_co2_series reg_C02 # map vals reg_C02
                   in case replacement_df_wide combined_meta combined_values of
                        Inl e \<Rightarrow> Inl e
                      | Inr rep_run \<Rightarrow> Inr (base_run @ rep_run))))"


text \<open>One row of \<open>R_phase\<close> on its own: the three steps the source takes for region \<open>i\<close>
  (the \<open>linspace\<close> of line 75, the two slice assignments of lines 78 and 79), for
  \<open>r = r_factors[i]\<close> and \<open>y = target_years[i]\<close>. Lemma \<open>R_phase_Inr_iff\<close> relates it to
  \<open>R_phase\<close>.\<close>

definition phase_row :: "real \<Rightarrow> int \<Rightarrow> error + real list" where
  "phase_row r y =
     (case np_linspace 0 r (y - 2000 - start_index + 1) of
        Inl e \<Rightarrow> Inl e
      | Inr sf \<Rightarrow>
          (case set_slice (np_zeros (length years_numeric)) start_index (y - 2000 + 1) sf of
             Inl e \<Rightarrow> Inl e
           | Inr row \<Rightarrow> Inr (fill_slice row (y - 2000 + 1) r)))"

subsection \<open>The input dialogs (climate_app.py, lines 182 to 203)\<close>





subsection \<open>Example scenarios\<close>

text \<open>Rows that are constant in time, and two interpolated scenarios of nine rows: the
  fossil CO2 rows of World, the five R5 regions and World|Bunkers, and two methane rows.
  In \<open>example_scen\<close> the regional rows stand in the order the docstring of
  \<open>modify_scenario\<close> names (that of \<open>REGIONS\<close>); in \<open>example_scen_oecd_first\<close> they stand
  in the order OECD, REF, ASIA, MAF, LAM.\<close>

definition mk_row :: "string \<Rightarrow> string \<Rightarrow> string \<Rightarrow> real \<Rightarrow> ts_row" where
  "mk_row reg v u c =
     \<lparr>meta_of = \<lparr>model = ''IMAGE'', scenario = ''RCP26'', region = reg, variable = v, unit = u,
                  climate_model = ''unspecified'', todo = ''SET''\<rparr>,
      vals = replicate 101 c\<rparr>"

definition example_scen :: dataset where
  "example_scen =
     [mk_row ''World'' var ''Gt C / yr'' 15,
      mk_row ''World'' ''Emissions|CH4'' ''Mt CH4 / yr'' 300,
      mk_row ''World|R5LAM'' var ''Gt C / yr'' 1,
      mk_row ''World|R5LAM'' ''Emissions|CH4'' ''Mt CH4 / yr'' 30,
      mk_row ''World|R5MAF'' var ''Gt C / yr'' 2,
      mk_row ''World|R5ASIA'' var ''Gt C / yr'' 3,
      mk_row ''World|R5REF'' var ''Gt C / yr'' 4,
      mk_row ''World|R5OECD'' var ''Gt C / yr'' 5,
      mk_row ''World|Bunkers'' var ''Gt C / yr'' (1 / 4)]"

definition example_scen_oecd_first :: dataset where
  "example_scen_oecd_first =
     [mk_row ''World'' var ''Gt C / yr'' 15,
      mk_row ''World'' ''Emissions|CH4'' ''Mt CH4 / yr'' 300,
      mk_row ''World|R5OECD'' var ''Gt C / yr'' 5,
      mk_row ''World|R5REF'' var ''Gt C / yr'' 4,
      mk_row ''World|R5ASIA'' var ''Gt C / yr'' 3,
      mk_row ''World|R5MAF'' var ''Gt C / yr'' 2,
      mk_row ''World|R5LAM'' var ''Gt C / yr'' 1,
      mk_row ''World|R5LAM'' ''Emissions|CH4'' ''Mt CH4 / yr'' 30,
      mk_row ''World|Bunkers'' var ''Gt C / yr'' (1 / 4)]"

definition example_reg :: dataset where
  "example_reg =
     [mk_row ''World|R5LAM'' var ''Gt C / yr'' 1,
      mk_row ''World|R5MAF'' var ''Gt C / yr'' 2,
      mk_row ''World|R5ASIA'' var ''Gt C / yr'' 3,
      mk_row ''World|R5REF'' var ''Gt C / yr'' 4,
      mk_row ''World|R5OECD'' var ''Gt C / yr'' 5]"

section \<open>The schedule\<close>

lemma length_years_numeric: "length years_numeric = 101"
  unfolding years_numeric_def np_arange_def by (simp only: length_upto)

lemma years_numeric_nth: "j < 101 \<Longrightarrow> years_numeric ! j = 2000 + int j"
  unfolding years_numeric_def np_arange_def by (subst nth_upto) simp_all

lemma np_linspace_Inr:
  "0 \<le> num \<Longrightarrow> np_linspace start stop num =
     Inr (map (\<lambda>k. start + real k * ((stop - start) / real_of_int (num - 1))) [0..<nat num])"
  by (simp add: np_linspace_def)

lemma np_linspace_neg: "num < 0 \<Longrightarrow> np_linspace start stop num = Inl ValueError"
  by (simp add: np_linspace_def)

lemma phase_row_early: "y < 2024 \<Longrightarrow> phase_row r y = Inl ValueError"
  by (simp add: phase_row_def np_linspace_neg start_index_def)

lemma phase_row_late:
  assumes "2100 < y"
  shows "phase_row r y = Inl ValueError"
proof -
  have "nat (y - 2024) \<noteq> Suc 0" "nat (y - 2024) \<noteq> 76" using assms by simp_all
  then show ?thesis using assms
    by (simp add: phase_row_def np_linspace_Inr start_index_def set_slice_def slice_bound_def
      np_zeros_def length_years_numeric Let_def)
qed

lemma phase_row_Inr:
  assumes "2024 \<le> y" "y \<le> 2100"
  shows "phase_row r y =
     Inr (replicate 25 0
          @ map (\<lambda>k. real k * (r / real_of_int (y - 2025))) [0..<nat (y - 2024)]
          @ replicate (nat (2100 - y)) r)"
proof -
  have a: "min 101 (nat (y - 1999)) = nat (y - 1999)" using assms by simp
  have b: "max 25 (nat (y - 1999)) = nat (y - 1999)" using assms by simp
  have c: "nat (y - 1999) - 25 = nat (y - 2024)" using assms by simp
  have d: "101 - nat (y - 1999) = nat (2100 - y)" using assms by simp
  have e: "y - 2000 - 25 + 1 = y - 2024" "y - 2024 - 1 = y - 2025" "y - 2000 + 1 = y - 1999" by simp_all
  show ?thesis using assms
    by (simp add: phase_row_def np_linspace_Inr start_index_def set_slice_def slice_bound_def
      np_zeros_def length_years_numeric Let_def fill_slice_def a b c d e min_absorb2 max_absorb2)
qed


lemma scale_factor_Inr_iff:
  "scale_factor rs ds = Inr sfs \<longleftrightarrow>
     length rs \<le> length ds \<and> length sfs = length rs
     \<and> (\<forall>i<length rs. np_linspace 0 (rs ! i) (ds ! i) = Inr (sfs ! i))"
proof (induction rs ds arbitrary: sfs rule: scale_factor.induct)
  case (1 ds)
  then show ?case by auto
next
  case (2 r rs)
  then show ?case by simp
next
  case (3 r rs d ds)
  show ?case
  proof (cases sfs)
    case Nil
    then show ?thesis by (auto split: sum.splits)
  next
    case (Cons sf sfs')
    have "(\<forall>i<Suc (length rs). np_linspace 0 ((r # rs) ! i) ((d # ds) ! i) = Inr ((sf # sfs') ! i))
          \<longleftrightarrow> np_linspace 0 r d = Inr sf
              \<and> (\<forall>i<length rs. np_linspace 0 (rs ! i) (ds ! i) = Inr (sfs' ! i))"
      by (auto simp: less_Suc_eq_0_disj)
    then show ?thesis using Cons 3
      by (auto split: sum.splits)
  qed
qed

lemma R_phase_loop_Inr_iff:
  "length rs \<le> length tis \<Longrightarrow> length sfs = length rs \<Longrightarrow>
   R_phase_loop rs tis sfs = Inr R \<longleftrightarrow>
     length R = length rs
     \<and> (\<forall>i<length rs. \<exists>row. set_slice (np_zeros (length years_numeric)) start_index (tis ! i + 1) (sfs ! i) = Inr row
            \<and> R ! i = fill_slice row (tis ! i + 1) (rs ! i))"
proof (induction rs tis sfs arbitrary: R rule: R_phase_loop.induct)
  case (1 tis sfs)
  then show ?case by auto
next
  case (2 r rs ti tis sf sfs)
  show ?case
  proof (cases R)
    case Nil
    then show ?thesis by (auto split: sum.splits)
  next
    case (Cons row0 R')
    show ?thesis
    proof (cases "set_slice (np_zeros (length years_numeric)) start_index (ti + 1) sf")
      case (Inl e)
      then show ?thesis by auto
    next
      case (Inr b)
      have ih: "R_phase_loop rs tis sfs = Inr R' \<longleftrightarrow>
         length R' = length rs
         \<and> (\<forall>i<length rs. \<exists>row. set_slice (np_zeros (length years_numeric)) start_index (tis ! i + 1) (sfs ! i) = Inr row
              \<and> R' ! i = fill_slice row (tis ! i + 1) (rs ! i))"
        using 2(1)[OF Inr] 2(2,3) by simp
      have eq: "(\<forall>i<length (r # rs). \<exists>row. set_slice (np_zeros (length years_numeric)) start_index ((ti # tis) ! i + 1) ((sf # sfs) ! i) = Inr row
              \<and> (row0 # R') ! i = fill_slice row ((ti # tis) ! i + 1) ((r # rs) ! i))
         \<longleftrightarrow> row0 = fill_slice b (ti + 1) r
             \<and> (\<forall>i<length rs. \<exists>row. set_slice (np_zeros (length years_numeric)) start_index (tis ! i + 1) (sfs ! i) = Inr row
              \<and> R' ! i = fill_slice row (tis ! i + 1) (rs ! i))"
        by (auto simp: less_Suc_eq_0_disj Inr)
      have "R_phase_loop (r # rs) (ti # tis) (sf # sfs) = Inr (row0 # R')
         \<longleftrightarrow> row0 = fill_slice b (ti + 1) r \<and> R_phase_loop rs tis sfs = Inr R'"
        by (auto simp: Inr split: sum.splits)
      then show ?thesis unfolding Cons eq ih by auto
    qed
  qed
next
  case (3 r rs sfs)
  then show ?case by simp
next
  case (4 r rs ti tis)
  then show ?case by simp
qed

lemma R_phase_Inr_iff:
  "R_phase rs ys = Inr R \<longleftrightarrow>
     length rs \<le> length ys \<and> length R = length rs
     \<and> (\<forall>i<length rs. phase_row (rs ! i) (ys ! i) = Inr (R ! i))"
  (is "?l \<longleftrightarrow> ?r")
proof
  assume ?l
  then obtain sfs where sf: "scale_factor rs (ramp_duration ys) = Inr sfs"
    and lp: "R_phase_loop rs (target_index ys) sfs = Inr R"
    by (auto simp: R_phase_def split: sum.splits)
  from sf have len: "length rs \<le> length ys" "length sfs = length rs"
    and lin: "\<And>i. i < length rs \<Longrightarrow> np_linspace 0 (rs ! i) (ramp_duration ys ! i) = Inr (sfs ! i)"
    by (auto simp: scale_factor_Inr_iff ramp_duration_def target_index_def)
  from lp len have lenR: "length R = length rs"
    and rows: "\<And>i. i < length rs \<Longrightarrow> \<exists>row. set_slice (np_zeros (length years_numeric)) start_index (target_index ys ! i + 1) (sfs ! i) = Inr row
            \<and> R ! i = fill_slice row (target_index ys ! i + 1) (rs ! i)"
    by (auto simp: R_phase_loop_Inr_iff target_index_def)
  have "phase_row (rs ! i) (ys ! i) = Inr (R ! i)" if "i < length rs" for i
  proof -
    from that len have iy: "i < length ys" by simp
    from lin[OF that] rows[OF that] iy show ?thesis
      by (auto simp: phase_row_def ramp_duration_def target_index_def)
  qed
  with len lenR show ?r by simp
next
  assume r: ?r
  define sfs where "sfs = map (\<lambda>i. projr (np_linspace 0 (rs ! i) (ramp_duration ys ! i))) [0..<length rs]"
  have lin: "np_linspace 0 (rs ! i) (ramp_duration ys ! i) = Inr (sfs ! i)" if "i < length rs" for i
  proof -
    from that r have iy: "i < length ys" and pr: "phase_row (rs ! i) (ys ! i) = Inr (R ! i)" by auto
    from pr obtain sf where "np_linspace 0 (rs ! i) (ramp_duration ys ! i) = Inr sf"
      using iy by (auto simp: phase_row_def ramp_duration_def target_index_def split: sum.splits)
    then show ?thesis using that by (simp add: sfs_def)
  qed
  have sf: "scale_factor rs (ramp_duration ys) = Inr sfs"
    using r lin by (simp add: scale_factor_Inr_iff sfs_def ramp_duration_def target_index_def)
  have "R_phase_loop rs (target_index ys) sfs = Inr R"
  proof -
    have "\<exists>row. set_slice (np_zeros (length years_numeric)) start_index (target_index ys ! i + 1) (sfs ! i) = Inr row
            \<and> R ! i = fill_slice row (target_index ys ! i + 1) (rs ! i)" if "i < length rs" for i
    proof -
      from that r have iy: "i < length ys" and pr: "phase_row (rs ! i) (ys ! i) = Inr (R ! i)" by auto
      from lin[OF that] iy have "np_linspace 0 (rs ! i) (ys ! i - 2000 - start_index + 1) = Inr (sfs ! i)"
        by (simp add: ramp_duration_def target_index_def)
      with pr iy show ?thesis
        by (auto simp: phase_row_def target_index_def split: sum.splits)
    qed
    moreover have "length rs \<le> length (target_index ys)" "length sfs = length rs"
      using r by (simp_all add: target_index_def sfs_def)
    ultimately show ?thesis using r by (simp add: R_phase_loop_Inr_iff)
  qed
  with sf show ?l by (simp add: R_phase_def)
qed


lemma phase_row_Inr_iff:
  "phase_row r y = Inr row \<longleftrightarrow>
     2024 \<le> y \<and> y \<le> 2100
     \<and> row = replicate 25 0
             @ map (\<lambda>k. real k * (r / real_of_int (y - 2025))) [0..<nat (y - 2024)]
             @ replicate (nat (2100 - y)) r"
proof (cases "2024 \<le> y \<and> y \<le> 2100")
  case True
  then show ?thesis by (auto simp: phase_row_Inr)
next
  case False
  then have "phase_row r y = Inl ValueError"
    using phase_row_early[of y r] phase_row_late[of y r] by auto
  with False show ?thesis by auto
qed

lemma phase_row_length: "phase_row r y = Inr row \<Longrightarrow> length row = 101"
  by (auto simp: phase_row_Inr_iff)

lemma phase_row_nth:
  assumes "phase_row r y = Inr row" "j < 101"
  shows "row ! j = (if j < 25 then 0
                    else if int j \<le> y - 2000 then real (j - 25) * (r / real_of_int (y - 2025))
                    else r)"
proof -
  from assms(1) have y: "2024 \<le> y" "y \<le> 2100"
    and row: "row = replicate 25 0
             @ map (\<lambda>k. real k * (r / real_of_int (y - 2025))) [0..<nat (y - 2024)]
             @ replicate (nat (2100 - y)) r"
    by (auto simp: phase_row_Inr_iff)
  consider "j < 25" | "25 \<le> j" "int j \<le> y - 2000" | "25 \<le> j" "y - 2000 < int j" by linarith
  then show ?thesis
  proof cases
    case 1
    then show ?thesis by (simp add: row nth_append)
  next
    case 2
    then have "j - 25 < nat (y - 2024)" by linarith
    with 2 show ?thesis by (simp add: row nth_append)
  next
    case 3
    then have a: "\<not> j - 25 < nat (y - 2024)" by linarith
    from 3 assms(2) y have b: "j - 25 - nat (y - 2024) < nat (2100 - y)" by linarith
    from 3 a b show ?thesis by (simp add: row nth_append)
  qed
qed

lemma phase_row_bounds:
  assumes "phase_row r y = Inr row" "j < 101" "0 \<le> r"
  shows "0 \<le> row ! j \<and> row ! j \<le> r"
proof (cases "25 \<le> j \<and> int j \<le> y - 2000")
  case True
  show ?thesis
  proof (cases "y = 2025")
    case True
    with assms phase_row_nth[OF assms(1,2)] show ?thesis by simp
  next
    case False
    with True have pos: "0 < real_of_int (y - 2025)" by simp
    from True have le: "real (j - 25) \<le> real_of_int (y - 2025)" by linarith
    define q where "q = real (j - 25) / real_of_int (y - 2025)"
    have eq: "real (j - 25) * (r / real_of_int (y - 2025)) = r * q"
      by (simp add: q_def)
    have q0: "0 \<le> q" using pos by (simp add: q_def)
    have q1: "q \<le> 1" using pos le by (simp add: q_def)
    have "0 \<le> r * q" using assms(3) q0 by (rule mult_nonneg_nonneg)
    moreover have "r * q \<le> r * 1" using q1 assms(3) by (rule mult_left_mono)
    ultimately have "0 \<le> real (j - 25) * (r / real_of_int (y - 2025))"
      "real (j - 25) * (r / real_of_int (y - 2025)) \<le> r"
      unfolding eq by simp_all
    with True phase_row_nth[OF assms(1,2)] show ?thesis by simp
  qed
next
  case False
  with assms phase_row_nth[OF assms(1,2)] show ?thesis by auto
qed

lemma phase_row_mono:
  assumes "phase_row r y = Inr row" "j \<le> k" "k < 101" "0 \<le> r"
  shows "row ! j \<le> row ! k"
proof -
  from assms have j: "j < 101" by simp
  note nj = phase_row_nth[OF assms(1) j] and nk = phase_row_nth[OF assms(1,3)]
  note bj = phase_row_bounds[OF assms(1) j assms(4)] and bk = phase_row_bounds[OF assms(1,3,4)]
  consider "j < 25" | "25 \<le> j" "int k \<le> y - 2000" | "y - 2000 < int k" "25 \<le> k" | "k < 25" by linarith
  then show ?thesis
  proof cases
    case 1
    with nj bk show ?thesis by simp
  next
    case 2
    with assms(2) have jj: "25 \<le> j" "int j \<le> y - 2000" "25 \<le> k" by simp_all
    have "0 \<le> r / real_of_int (y - 2025)" using assms(4) 2 jj by simp
    moreover have "real (j - 25) \<le> real (k - 25)" using assms(2) by simp
    ultimately have "real (j - 25) * (r / real_of_int (y - 2025)) \<le> real (k - 25) * (r / real_of_int (y - 2025))"
      by (rule mult_right_mono[rotated])
    with nj nk 2 jj show ?thesis by simp
  next
    case 3
    with nk bj show ?thesis by simp
  next
    case 4
    with assms(2) nj nk show ?thesis by simp
  qed
qed


lemma R_phase_length:
  assumes "R_phase rs ys = Inr R" "i < length rs"
  shows "length (R ! i) = 101"
  using assms by (auto simp: R_phase_Inr_iff dest: phase_row_length)

lemma R_phase_nth:
  assumes "R_phase rs ys = Inr R" "i < length rs" "j < 101"
  shows "R ! i ! j = (if j < 25 then 0
                      else if int j \<le> ys ! i - 2000
                           then real (j - 25) * (rs ! i / real_of_int (ys ! i - 2025))
                           else rs ! i)"
proof -
  from assms(1,2) have "phase_row (rs ! i) (ys ! i) = Inr (R ! i)"
    by (simp add: R_phase_Inr_iff)
  from phase_row_nth[OF this assms(3)] show ?thesis .
qed

lemma R_phase_years:
  assumes "R_phase rs ys = Inr R" "i < length rs"
  shows "2024 \<le> ys ! i \<and> ys ! i \<le> 2100"
proof -
  from assms have "phase_row (rs ! i) (ys ! i) = Inr (R ! i)"
    by (simp add: R_phase_Inr_iff)
  then show ?thesis by (simp add: phase_row_Inr_iff)
qed

text \<open>The schedule is built exactly for target years from 2024 to 2100.\<close>

lemma R_phase_succeeds_iff:
  "(\<exists>R. R_phase rs ys = Inr R) \<longleftrightarrow>
     length rs \<le> length ys \<and> (\<forall>i<length rs. 2024 \<le> ys ! i \<and> ys ! i \<le> 2100)"
  (is "?l \<longleftrightarrow> ?r")
proof
  assume ?l
  then obtain R where R: "R_phase rs ys = Inr R" ..
  then have "length rs \<le> length ys" by (simp add: R_phase_Inr_iff)
  with R_phase_years[OF R] show ?r by simp
next
  assume r: ?r
  define R where "R = map (\<lambda>i. replicate 25 0
          @ map (\<lambda>k. real k * (rs ! i / real_of_int (ys ! i - 2025))) [0..<nat (ys ! i - 2024)]
          @ replicate (nat (2100 - ys ! i)) (rs ! i)) [0..<length rs]"
  have "phase_row (rs ! i) (ys ! i) = Inr (R ! i)" if "i < length rs" for i
    using that r by (simp add: R_def phase_row_Inr)
  moreover have "length R = length rs" by (simp add: R_def)
  ultimately have "R_phase rs ys = Inr R" using r by (simp add: R_phase_Inr_iff)
  then show ?l ..
qed

text \<open>For a target year after 2025 the schedule is the ramp the source intends: zero up
  to 2025, linear from 0 in 2025 to the fraction in the target year, the fraction after
  it, and non-decreasing for a non-negative fraction.\<close>

lemma schedule_ramp_for_later_targets:
  assumes "R_phase r_factors target_years = Inr R"
    and "i < length r_factors"
    and "2025 < target_years ! i"
    and "j < length years_numeric"
  shows "(years_numeric ! j < 2025 \<longrightarrow> R ! i ! j = 0)
       \<and> (2025 \<le> years_numeric ! j \<and> years_numeric ! j \<le> target_years ! i \<longrightarrow>
            R ! i ! j = r_factors ! i * real_of_int (years_numeric ! j - 2025)
                          / real_of_int (target_years ! i - 2025))
       \<and> (years_numeric ! j = 2025 \<longrightarrow> R ! i ! j = 0)
       \<and> (years_numeric ! j = target_years ! i \<longrightarrow> R ! i ! j = r_factors ! i)
       \<and> (target_years ! i < years_numeric ! j \<longrightarrow> R ! i ! j = r_factors ! i)
       \<and> (0 \<le> r_factors ! i \<longrightarrow> (\<forall>k. j \<le> k \<and> k < length years_numeric \<longrightarrow> R ! i ! j \<le> R ! i ! k))"
proof -
  have j: "j < 101" using assms(4) by (simp add: length_years_numeric)
  note n = R_phase_nth[OF assms(1,2) j]
  have yj: "years_numeric ! j = 2000 + int j" using j by (rule years_numeric_nth)
  from assms(1,2) have pr: "phase_row (r_factors ! i) (target_years ! i) = Inr (R ! i)"
    by (simp add: R_phase_Inr_iff)
  have mono: "R ! i ! j \<le> R ! i ! k" if "0 \<le> r_factors ! i" "j \<le> k" "k < length years_numeric" for k
    using phase_row_mono[OF pr that(2) _ that(1)] that(3) by (simp add: length_years_numeric)
  have a: "years_numeric ! j < 2025 \<longrightarrow> R ! i ! j = 0" using n yj by simp
  have b: "2025 \<le> years_numeric ! j \<and> years_numeric ! j \<le> target_years ! i \<longrightarrow>
            R ! i ! j = r_factors ! i * real_of_int (years_numeric ! j - 2025)
                          / real_of_int (target_years ! i - 2025)"
  proof
    assume h: "2025 \<le> years_numeric ! j \<and> years_numeric ! j \<le> target_years ! i"
    then have "25 \<le> j" "int j \<le> target_years ! i - 2000" using yj by simp_all
    moreover from this have "real (j - 25) = real_of_int (years_numeric ! j - 2025)"
      using yj by simp
    ultimately show "R ! i ! j = r_factors ! i * real_of_int (years_numeric ! j - 2025)
                          / real_of_int (target_years ! i - 2025)"
      using n by simp
  qed
  have c: "years_numeric ! j = 2025 \<longrightarrow> R ! i ! j = 0" using b assms(3) by simp
  have d: "years_numeric ! j = target_years ! i \<longrightarrow> R ! i ! j = r_factors ! i"
    using b assms(3) by auto
  have e: "target_years ! i < years_numeric ! j \<longrightarrow> R ! i ! j = r_factors ! i"
    using n yj assms(3) by auto
  from a b c d e mono show ?thesis by blast
qed


section \<open>The regional adjustment\<close>

lemma scale_regions_Inr:
  assumes "scale_regions reg R = Inr adj"
  shows "length adj = length reg"
    and "list_all (\<lambda>row. length (vals row) = 101) reg"
    and "length R = length reg \<Longrightarrow> i < length reg \<Longrightarrow>
           adj ! i = mul_row (reg ! i) (map (\<lambda>p. 1 - p) (R ! i))"
proof -
  from assms show ok: "list_all (\<lambda>row. length (vals row) = 101) reg"
    by (auto simp: scale_regions_def Let_def length_years_numeric split: if_splits)
  from assms show "length adj = length reg"
    by (auto simp: scale_regions_def Let_def split: if_splits)
  show "adj ! i = mul_row (reg ! i) (map (\<lambda>p. 1 - p) (R ! i))"
    if "length R = length reg" "i < length reg"
  proof -
    from assms that(1) have "adj = map2 mul_row reg (map (map (\<lambda>p. 1 - p)) R)"
      by (auto simp: scale_regions_def Let_def split: if_splits)
    with that show ?thesis by simp
  qed
qed

lemma adjust_Inr:
  assumes "adjust scen_t rs ys = Inr adj"
  obtains R reg where "R_phase rs ys = Inr R" "select_reg_C02 scen_t = Inr reg"
    "scale_regions reg R = Inr adj"
  using assms by (auto simp: adjust_def split: sum.splits)

text \<open>Row \<open>i\<close> of the scaled frame: the metadata of row \<open>i\<close> of the selection, and its
  values times one minus row \<open>i\<close> of the schedule.\<close>

lemma adjust_row:
  assumes "select_reg_C02 scen_t = Inr reg" "adjust scen_t rs ys = Inr adj"
    "R_phase rs ys = Inr R" "length rs = length reg" "i < length reg"
  shows "length adj = length reg"
    and "meta_of (adj ! i) = meta_of (reg ! i)"
    and "length (vals (reg ! i)) = 101"
    and "length (vals (adj ! i)) = 101"
    and "j < 101 \<Longrightarrow> vals (adj ! i) ! j = vals (reg ! i) ! j * (1 - R ! i ! j)"
proof -
  from assms(1,2,3) have sc: "scale_regions reg R = Inr adj"
    by (auto elim: adjust_Inr)
  from assms(3) have lenR: "length R = length reg"
    by (simp add: R_phase_Inr_iff assms(4))
  note s = scale_regions_Inr[OF sc]
  show "length adj = length reg" by (rule s(1))
  from s(3)[OF lenR assms(5)] have adj: "adj ! i = mul_row (reg ! i) (map (\<lambda>p. 1 - p) (R ! i))" .
  then show "meta_of (adj ! i) = meta_of (reg ! i)" by (simp add: mul_row_def)
  from s(2) assms(5) show l1: "length (vals (reg ! i)) = 101" by (simp add: list_all_length)
  from assms(3,4,5) have l2: "length (R ! i) = 101" by (simp add: R_phase_length)
  from adj l1 l2 show "length (vals (adj ! i)) = 101" by (simp add: mul_row_def)
  from adj l1 l2 show "vals (adj ! i) ! j = vals (reg ! i) ! j * (1 - R ! i ! j)" if "j < 101"
    using that by (simp add: mul_row_def)
qed

lemma example_reg_selected: "select_reg_C02 example_scen = Inr example_reg"
  by code_simp

text \<open>
  Claim C8. A reduction fraction of zero leaves a region's series as it was: when
  \<open>r_factors[i] = 0\<close>, row \<open>i\<close> of the scaled regional frame \<open>reg_C02\<close> (after line 106) is
  row \<open>i\<close> of the selection it was computed from, values and metadata alike, whatever the
  target year. Rows and fractions are paired by position, as the source pairs them.
  (Over the reals; the float64 product \<open>x * 1.0\<close> is \<open>x\<close> as well.)
\<close>

theorem zero_fraction_leaves_region_unchanged:
  assumes "select_reg_C02 scen_t = Inr reg"
    and "adjust scen_t r_factors target_years = Inr adj"
    and "length r_factors = length reg"
    and "i < length reg"
    and "r_factors ! i = 0"
  shows "adj ! i = reg ! i"
proof -
  from assms(2) obtain R where R: "R_phase r_factors target_years = Inr R"
    by (auto elim: adjust_Inr)
  note row = adjust_row[OF assms(1,2) R assms(3,4)]
  have i: "i < length r_factors" using assms(3,4) by simp
  have zero: "R ! i ! j = 0" if "j < 101" for j
    using R_phase_nth[OF R i that] assms(5) by simp
  have "vals (adj ! i) = vals (reg ! i)"
  proof (rule nth_equalityI)
    show "length (vals (adj ! i)) = length (vals (reg ! i))" using row(3,4) by simp
  next
    fix j assume "j < length (vals (adj ! i))"
    then have j: "j < 101" using row(4) by simp
    from row(5)[OF j] zero[OF j] show "vals (adj ! i) ! j = vals (reg ! i) ! j" by simp
  qed
  with row(2) show ?thesis by simp
qed

theorem zero_fraction_leaves_region_unchanged_witness:
  "\<exists>adj. adjust example_scen [1 / 2, 0, 1 / 2, 1 / 2, 1 / 2] [2050, 2025, 2050, 2050, 2050] = Inr adj
     \<and> adj ! 1 = example_reg ! 1
     \<and> example_reg ! 1 = mk_row ''World|R5MAF'' var ''Gt C / yr'' 2"
proof -
  let ?rs = "[1 / 2, 0, 1 / 2, 1 / 2, 1 / 2] :: real list"
  let ?ys = "[2050, 2025, 2050, 2050, 2050] :: int list"
  have "\<not> isl (adjust example_scen ?rs ?ys)" by code_simp
  then obtain adj where adj: "adjust example_scen ?rs ?ys = Inr adj"
    by (cases "adjust example_scen ?rs ?ys") auto
  have len: "length ?rs = length example_reg" by (simp add: example_reg_def)
  have i: "1 < length example_reg" by (simp add: example_reg_def)
  have z: "?rs ! 1 = 0" by simp
  from zero_fraction_leaves_region_unchanged[OF example_reg_selected adj len i z]
  have "adj ! 1 = example_reg ! 1" .
  moreover have "example_reg ! 1 = mk_row ''World|R5MAF'' var ''Gt C / yr'' 2"
    by (simp add: example_reg_def)
  ultimately show ?thesis using adj by blast
qed

text \<open>
  Claim C10. Whenever the schedule is built and the fraction of region \<open>i\<close> lies in
  \<open>[0, 1]\<close>, every entry of row \<open>i\<close> of the schedule lies between 0 and that fraction; the
  adjusted value is the original value times the factor \<open>1 - R[i][j]\<close>, which lies in
  \<open>[1 - r, 1]\<close>; so a non-negative value stays non-negative and does not grow. The
  schedule is built exactly for target years from 2024 to 2100 (lemma \<open>R_phase_years\<close>),
  which covers the years 2025 to 2100 of the claim. The adjusted values are those of
  \<open>reg_C02\<close> after line 106, rows and fractions paired by position.
\<close>

theorem schedule_and_adjusted_values_bounded:
  assumes "select_reg_C02 scen_t = Inr reg"
    and "adjust scen_t r_factors target_years = Inr adj"
    and "R_phase r_factors target_years = Inr R"
    and "length r_factors = length reg"
    and "i < length reg"
    and "0 \<le> r_factors ! i"
    and "r_factors ! i \<le> 1"
    and "j < length years_numeric"
  shows "0 \<le> R ! i ! j \<and> R ! i ! j \<le> r_factors ! i
       \<and> vals (adj ! i) ! j = vals (reg ! i) ! j * (1 - R ! i ! j)
       \<and> 1 - r_factors ! i \<le> 1 - R ! i ! j \<and> 1 - R ! i ! j \<le> 1
       \<and> (0 \<le> vals (reg ! i) ! j \<longrightarrow>
            0 \<le> vals (adj ! i) ! j \<and> vals (adj ! i) ! j \<le> vals (reg ! i) ! j)"
proof -
  have j: "j < 101" using assms(8) by (simp add: length_years_numeric)
  have i: "i < length r_factors" using assms(4,5) by simp
  from assms(3) i have "phase_row (r_factors ! i) (target_years ! i) = Inr (R ! i)"
    by (simp add: R_phase_Inr_iff)
  from phase_row_bounds[OF this j assms(6)]
  have b: "0 \<le> R ! i ! j" "R ! i ! j \<le> r_factors ! i" by simp_all
  from adjust_row(5)[OF assms(1,2,3,4,5) j]
  have v: "vals (adj ! i) ! j = vals (reg ! i) ! j * (1 - R ! i ! j)" .
  have f: "0 \<le> 1 - R ! i ! j" "1 - R ! i ! j \<le> 1" using b assms(7) by simp_all
  have "0 \<le> vals (reg ! i) ! j * (1 - R ! i ! j)"
    "vals (reg ! i) ! j * (1 - R ! i ! j) \<le> vals (reg ! i) ! j" if "0 \<le> vals (reg ! i) ! j"
    using that f by (simp_all add: mult_left_le)
  with b v f show ?thesis by simp
qed

theorem schedule_and_adjusted_values_bounded_witness:
  "\<exists>adj R. adjust example_scen [1 / 2, 0, 1, 1 / 4, 1 / 2] [2050, 2025, 2100, 2025, 2075] = Inr adj
     \<and> R_phase [1 / 2, 0, 1, 1 / 4, 1 / 2] [2050, 2025, 2100, 2025, 2075] = Inr R
     \<and> 0 \<le> R ! 4 ! 50 \<and> R ! 4 ! 50 \<le> 1 / 2
     \<and> vals (adj ! 4) ! 50 = vals (example_reg ! 4) ! 50 * (1 - R ! 4 ! 50)
     \<and> 0 \<le> vals (adj ! 4) ! 50 \<and> vals (adj ! 4) ! 50 \<le> 5"
proof -
  let ?rs = "[1 / 2, 0, 1, 1 / 4, 1 / 2] :: real list"
  let ?ys = "[2050, 2025, 2100, 2025, 2075] :: int list"
  have "\<not> isl (adjust example_scen ?rs ?ys)" by code_simp
  then obtain adj where adj: "adjust example_scen ?rs ?ys = Inr adj"
    by (cases "adjust example_scen ?rs ?ys") auto
  then obtain R where R: "R_phase ?rs ?ys = Inr R"
    by (auto elim: adjust_Inr)
  have len: "length ?rs = length example_reg" by (simp add: example_reg_def)
  have i: "4 < length example_reg" by (simp add: example_reg_def)
  have r0: "0 \<le> ?rs ! 4" and r1: "?rs ! 4 \<le> 1" by simp_all
  have j: "50 < length years_numeric" by (simp add: length_years_numeric)
  have x: "vals (example_reg ! 4) ! 50 = 5" by (simp add: example_reg_def mk_row_def)
  from schedule_and_adjusted_values_bounded[OF example_reg_selected adj R len i r0 r1 j] x
  have "0 \<le> R ! 4 ! 50 \<and> R ! 4 ! 50 \<le> 1 / 2
     \<and> vals (adj ! 4) ! 50 = vals (example_reg ! 4) ! 50 * (1 - R ! 4 ! 50)
     \<and> 0 \<le> vals (adj ! 4) ! 50 \<and> vals (adj ! 4) ! 50 \<le> 5"
    by simp
  with adj R show ?thesis by blast
qed



section \<open>The reassembly\<close>

lemma regions_to_modify_set:
  "set regions_to_modify = set REGIONS"
  by (auto simp: regions_to_modify_def REGIONS_def)

lemma World_not_modified: "''World'' \<notin> set regions_to_modify"
  by (simp add: regions_to_modify_def)

lemma distinct_regions_to_modify: "distinct regions_to_modify"
  by (simp add: regions_to_modify_def)

lemma regions_to_replace_set: "set regions_to_replace = insert ''World'' (set regions_to_modify)"
  by (simp add: regions_to_replace_def)

lemma template_r5:
  "scm_filter None regions_to_modify True (scm_filter (Some var) regions_to_replace True ds)
     = scm_filter (Some var) regions_to_modify True ds"
  by (auto simp: scm_filter_def regions_to_replace_set intro: filter_cong)

lemma template_world:
  "scm_filter None [''World''] True (scm_filter (Some var) regions_to_replace True ds)
     = scm_filter (Some var) [''World''] True ds"
  by (auto simp: scm_filter_def regions_to_replace_set intro: filter_cong)

lemma scm_filter_keep_mem:
  "row \<in> set (scm_filter (Some v) rs True ds) \<longleftrightarrow>
     row \<in> set ds \<and> variable (meta_of row) = v \<and> region (meta_of row) \<in> set rs"
  by (auto simp: scm_filter_def)

lemma length_filter_disj:
  assumes "\<And>x. x \<in> set xs \<Longrightarrow> \<not> (P x \<and> Q x)"
  shows "length (filter (\<lambda>x. P x \<or> Q x) xs) = length (filter P xs) + length (filter Q xs)"
  using assms by (induction xs) auto

lemma loc_region_Inr:
  assumes "loc_region labels ms = Inr out"
  shows "out = concat (map (\<lambda>l. filter (\<lambda>m. region m = l) ms) labels)"
    and "\<And>m. m \<in> set out \<Longrightarrow> m \<in> set ms \<and> region m \<in> set labels"
proof -
  from assms show eq: "out = concat (map (\<lambda>l. filter (\<lambda>m. region m = l) ms) labels)"
    by (auto simp: loc_region_def split: if_splits)
  show "m \<in> set ms \<and> region m \<in> set labels" if "m \<in> set out" for m
    using that unfolding eq by auto
qed

lemma length_concat_by_label:
  "distinct labels \<Longrightarrow>
   length (concat (map (\<lambda>l. filter (\<lambda>m. region m = l) ms) labels))
     = length (filter (\<lambda>m. region m \<in> set labels) ms)"
proof (induction labels)
  case Nil
  then show ?case by simp
next
  case (Cons l ls)
  have "length (filter (\<lambda>m. region m = l \<or> region m \<in> set ls) ms)
      = length (filter (\<lambda>m. region m = l) ms) + length (filter (\<lambda>m. region m \<in> set ls) ms)"
    using Cons.prems by (intro length_filter_disj) auto
  with Cons show ?case by simp
qed

lemma loc_region_length:
  assumes "distinct labels" "loc_region labels ms = Inr out"
  shows "length out = length (filter (\<lambda>m. region m \<in> set labels) ms)"
  using loc_region_Inr(1)[OF assms(2)] length_concat_by_label[OF assms(1)] by simp

lemma new_run_Inr:
  assumes "new_run scen_t rs ys = Inr out"
  obtains adj r5 where "adjust scen_t rs ys = Inr adj"
    and "loc_region regions_to_modify
           (map meta_of (scm_filter (Some var) regions_to_modify True scen_t)) = Inr r5"
    and "length (scm_filter (Some var) [''World''] True scen_t) + length r5 = Suc (length adj)"
    and "out = scm_filter (Some var) regions_to_replace False scen_t
             @ map2 (\<lambda>m v. \<lparr>meta_of = m, vals = v\<rparr>)
                 (map meta_of (scm_filter (Some var) [''World''] True scen_t) @ r5)
                 (world_co2_series adj # map vals adj)"
  using assms
  by (auto simp: new_run_def Let_def template_r5 template_world replacement_df_wide_def
      split: sum.splits if_splits)

lemma r5_length:
  assumes "loc_region regions_to_modify
           (map meta_of (scm_filter (Some var) regions_to_modify True scen_t)) = Inr r5"
  shows "length r5 = length (scm_filter (Some var) regions_to_modify True scen_t)"
proof -
  have "filter (\<lambda>m. region m \<in> set regions_to_modify)
          (map meta_of (scm_filter (Some var) regions_to_modify True scen_t))
        = map meta_of (scm_filter (Some var) regions_to_modify True scen_t)"
    by (rule filter_True) (auto simp: scm_filter_def)
  with loc_region_length[OF distinct_regions_to_modify assms] show ?thesis by simp
qed

lemma r5_meta:
  assumes "loc_region regions_to_modify
           (map meta_of (scm_filter (Some var) regions_to_modify True scen_t)) = Inr r5"
    and "m \<in> set r5"
  shows "variable m = var \<and> region m \<in> set regions_to_modify"
  using loc_region_Inr(2)[OF assms] by (auto simp: scm_filter_def)

lemma scen_t_partition:
  "length scen_t = length (scm_filter (Some var) regions_to_replace False scen_t)
     + length (scm_filter (Some var) [''World''] True scen_t)
     + length (scm_filter (Some var) regions_to_modify True scen_t)"
proof -
  let ?P = "\<lambda>row. variable (meta_of row) = var \<and> region (meta_of row) \<in> set regions_to_replace"
  let ?W = "\<lambda>row. variable (meta_of row) = var \<and> region (meta_of row) \<in> set [''World'']"
  let ?M = "\<lambda>row. variable (meta_of row) = var \<and> region (meta_of row) \<in> set regions_to_modify"
  have "length scen_t = length (filter (\<lambda>row. \<not> ?P row) scen_t) + length (filter ?P scen_t)"
    using sum_length_filter_compl[of ?P scen_t] by simp
  moreover have "filter ?P scen_t = filter (\<lambda>row. ?W row \<or> ?M row) scen_t"
    by (rule filter_cong) (auto simp: regions_to_replace_set)
  moreover have "length (filter (\<lambda>row. ?W row \<or> ?M row) scen_t)
      = length (filter ?W scen_t) + length (filter ?M scen_t)"
    by (rule length_filter_disj) (use World_not_modified in auto)
  ultimately show ?thesis by (simp add: scm_filter_def)
qed


lemma replacement_rows:
  assumes "length ms = length vs"
  shows "map meta_of (map2 (\<lambda>m v. \<lparr>meta_of = m, vals = v\<rparr>) ms vs) = ms"
    and "map vals (map2 (\<lambda>m v. \<lparr>meta_of = m, vals = v\<rparr>) ms vs) = vs"
  using assms by (induction ms vs rule: list_induct2) simp_all

lemma filter_none:
  assumes "\<And>x. x \<in> set xs \<Longrightarrow> \<not> P x"
  shows "filter P xs = []"
  using assms by (induction xs) auto

text \<open>The shape of a reassembled data set: the untouched rows, then the World row, then
  one row per adjusted series under the metadata of \<open>r5_meta_ordered\<close>.\<close>

lemma new_run_shape:
  assumes "new_run scen_t rs ys = Inr out"
    and "scm_filter (Some var) [''World''] True scen_t = [w0]"
  obtains adj r5 where "adjust scen_t rs ys = Inr adj"
    and "loc_region regions_to_modify
           (map meta_of (scm_filter (Some var) regions_to_modify True scen_t)) = Inr r5"
    and "length r5 = length adj"
    and "out = scm_filter (Some var) regions_to_replace False scen_t
             @ \<lparr>meta_of = meta_of w0, vals = world_co2_series adj\<rparr>
             # map2 (\<lambda>m v. \<lparr>meta_of = m, vals = v\<rparr>) r5 (map vals adj)"
proof -
  from assms(1) obtain adj r5 where a: "adjust scen_t rs ys = Inr adj"
    and l: "loc_region regions_to_modify
           (map meta_of (scm_filter (Some var) regions_to_modify True scen_t)) = Inr r5"
    and n: "length (scm_filter (Some var) [''World''] True scen_t) + length r5 = Suc (length adj)"
    and o: "out = scm_filter (Some var) regions_to_replace False scen_t
             @ map2 (\<lambda>m v. \<lparr>meta_of = m, vals = v\<rparr>)
                 (map meta_of (scm_filter (Some var) [''World''] True scen_t) @ r5)
                 (world_co2_series adj # map vals adj)"
    by (rule new_run_Inr)
  from n assms(2) have "length r5 = length adj" by simp
  moreover from o assms(2) have "out = scm_filter (Some var) regions_to_replace False scen_t
             @ \<lparr>meta_of = meta_of w0, vals = world_co2_series adj\<rparr>
             # map2 (\<lambda>m v. \<lparr>meta_of = m, vals = v\<rparr>) r5 (map vals adj)"
    by simp
  ultimately show thesis using a l that by blast
qed

lemma base_run_no_tracked:
  assumes "set rs \<subseteq> set regions_to_replace"
  shows "scm_filter (Some var) rs True (scm_filter (Some var) regions_to_replace False ds) = []"
  unfolding scm_filter_def using assms by (intro filter_none) auto

lemma r5_rows_filter:
  assumes "\<And>m. m \<in> set r5 \<Longrightarrow> variable m = var \<and> region m \<in> set regions_to_modify"
    and "length r5 = length vs"
  shows "scm_filter (Some var) regions_to_modify True (map2 (\<lambda>m v. \<lparr>meta_of = m, vals = v\<rparr>) r5 vs)
           = map2 (\<lambda>m v. \<lparr>meta_of = m, vals = v\<rparr>) r5 vs"
    and "scm_filter (Some var) [''World''] True (map2 (\<lambda>m v. \<lparr>meta_of = m, vals = v\<rparr>) r5 vs) = []"
proof -
  have mem: "variable (meta_of row) = var \<and> region (meta_of row) \<in> set regions_to_modify"
    if "row \<in> set (map2 (\<lambda>m v. \<lparr>meta_of = m, vals = v\<rparr>) r5 vs)" for row
  proof -
    from that obtain m v where "(m, v) \<in> set (zip r5 vs)" "row = \<lparr>meta_of = m, vals = v\<rparr>"
      by auto
    then show ?thesis using assms(1)[of m] by (auto dest: set_zip_leftD)
  qed
  show "scm_filter (Some var) regions_to_modify True (map2 (\<lambda>m v. \<lparr>meta_of = m, vals = v\<rparr>) r5 vs)
           = map2 (\<lambda>m v. \<lparr>meta_of = m, vals = v\<rparr>) r5 vs"
    unfolding scm_filter_def by (rule filter_True) (use mem in auto)
  have "region (meta_of row) \<noteq> ''World''"
    if "row \<in> set (map2 (\<lambda>m v. \<lparr>meta_of = m, vals = v\<rparr>) r5 vs)" for row
    using mem[OF that] World_not_modified by auto
  then show "scm_filter (Some var) [''World''] True (map2 (\<lambda>m v. \<lparr>meta_of = m, vals = v\<rparr>) r5 vs) = []"
    unfolding scm_filter_def by (intro filter_none) simp
qed

lemma scm_filter_append:
  "scm_filter v rs keep (xs @ ys) = scm_filter v rs keep xs @ scm_filter v rs keep ys"
  by (simp add: scm_filter_def)

lemma scm_filter_Cons:
  "scm_filter (Some v) rs keep (x # xs)
     = (if (variable (meta_of x) = v \<and> region (meta_of x) \<in> set rs) = keep then [x] else [])
       @ scm_filter (Some v) rs keep xs"
  by (simp add: scm_filter_def)

lemma world_co2_series_nth:
  "j < length years_numeric \<Longrightarrow>
     world_co2_series adj ! j = sum_list (map (\<lambda>row. vals row ! j) adj)"
  by (simp add: world_co2_series_def)

text \<open>A change of the values of World rows of the fossil CO2 variable is not seen.\<close>

lemma scm_filter_map_same_meta:
  assumes "\<And>x. meta_of (f x) = meta_of x"
  shows "scm_filter v rs keep (map f ds) = map f (scm_filter v rs keep ds)"
  by (cases v; induction ds) (simp_all add: scm_filter_def assms)

lemma map_filter_id:
  assumes "\<And>x. x \<in> set xs \<Longrightarrow> P x \<Longrightarrow> f x = x"
  shows "map f (filter P xs) = filter P xs"
  using assms by (induction xs) auto

lemma new_run_ignores_world_values:
  fixes w' :: "ts_row \<Rightarrow> real list"
  defines "f \<equiv> \<lambda>row. if region (meta_of row) = ''World'' \<and> variable (meta_of row) = var
                       then row\<lparr>vals := w' row\<rparr> else row"
  shows "new_run (map f scen_t) rs ys = new_run scen_t rs ys"
proof -
  have meta: "meta_of (f x) = meta_of x" for x by (simp add: f_def)
  have sel: "select_reg_C02 (map f scen_t) = select_reg_C02 scen_t"
  proof -
    let ?P = "\<lambda>row. region (meta_of row) \<notin> set [''World|Bunkers'', ''World'']
                \<and> unit (meta_of row) = ''Gt C / yr''
                \<and> variable (meta_of row) = ''Emissions|CO2|MAGICC Fossil and Industrial''"
    have "filter ?P (map f scen_t) = map f (filter ?P scen_t)"
      by (induction scen_t) (simp_all add: meta)
    also have "\<dots> = filter ?P scen_t"
      by (rule map_filter_id) (simp add: f_def)
    finally show ?thesis
      by (simp add: select_reg_C02_def list_ex_iff meta)
  qed
  have base: "scm_filter (Some var) regions_to_replace False (map f scen_t)
            = scm_filter (Some var) regions_to_replace False scen_t"
  proof -
    have "scm_filter (Some var) regions_to_replace False (map f scen_t)
        = map f (scm_filter (Some var) regions_to_replace False scen_t)"
      by (rule scm_filter_map_same_meta) (rule meta)
    also have "\<dots> = scm_filter (Some var) regions_to_replace False scen_t"
      unfolding scm_filter_def
      by (rule map_filter_id) (auto simp: f_def regions_to_replace_set)
    finally show ?thesis .
  qed
  have metas: "map meta_of (scm_filter (Some var) rr True (map f scen_t))
             = map meta_of (scm_filter (Some var) rr True scen_t)" for rr
    by (simp add: scm_filter_map_same_meta[of f, OF meta] meta)
  show ?thesis
    unfolding new_run_def adjust_def Let_def template_r5 template_world sel base metas ..
qed


text \<open>When the reassembly returns: the schedule is built, the regional frame is on the
  grid and has one row per fraction, every region of \<open>regions_to_modify\<close> has a fossil CO2
  row, and the rows to replace are one more than the regional frame has.\<close>

lemma new_run_succeeds:
  assumes "select_reg_C02 scen_t = Inr reg"
    and "list_all (\<lambda>row. length (vals row) = length years_numeric) reg"
    and "length r_factors = length reg"
    and "length r_factors \<le> length target_years"
    and "\<forall>i<length r_factors. 2024 \<le> target_years ! i \<and> target_years ! i \<le> 2100"
    and "list_all (\<lambda>l. list_ex (\<lambda>row. variable (meta_of row) = var \<and> region (meta_of row) = l) scen_t)
           regions_to_modify"
    and "length (scm_filter (Some var) [''World''] True scen_t)
           + length (scm_filter (Some var) regions_to_modify True scen_t) = Suc (length reg)"
  shows "\<exists>out. new_run scen_t r_factors target_years = Inr out"
proof -
  from assms(4,5) obtain R where R: "R_phase r_factors target_years = Inr R"
    using R_phase_succeeds_iff[of r_factors target_years] by blast
  then have lenR: "length R = length reg" by (simp add: R_phase_Inr_iff assms(3))
  have "list_all (\<lambda>ps. length ps = length years_numeric) R"
    unfolding list_all_length using R_phase_length[OF R] lenR assms(3)
    by (simp add: length_years_numeric)
  with assms(2) lenR have "scale_regions reg R = Inr (map2 mul_row reg (map (map (\<lambda>p. 1 - p)) R))"
    by (simp add: scale_regions_def)
  with R assms(1) obtain adj where adj: "adjust scen_t r_factors target_years = Inr adj"
    and la: "length adj = length reg"
    by (simp add: adjust_def lenR)
  let ?ms = "map meta_of (scm_filter (Some var) regions_to_modify True scen_t)"
  have "list_ex (\<lambda>m. region m = l) ?ms" if "l \<in> set regions_to_modify" for l
  proof -
    from assms(6) that obtain row where "row \<in> set scen_t" "variable (meta_of row) = var"
      "region (meta_of row) = l"
      by (auto simp: list_all_iff list_ex_iff)
    with that have "row \<in> set (scm_filter (Some var) regions_to_modify True scen_t)"
      by (simp add: scm_filter_keep_mem)
    with \<open>region (meta_of row) = l\<close> show ?thesis by (auto simp: list_ex_iff)
  qed
  then obtain r5 where r5: "loc_region regions_to_modify ?ms = Inr r5"
    by (simp add: loc_region_def list_all_iff)
  from r5_length[OF r5] assms(7) la
  have "length (map meta_of (scm_filter (Some var) [''World''] True scen_t) @ r5)
          = length (world_co2_series adj # map vals adj)"
    by simp
  then show ?thesis
    by (simp add: new_run_def adj Let_def template_r5 template_world r5 replacement_df_wide_def)
qed

lemma untouched_iff:
  "(region (meta_of row) \<notin> set (''World'' # REGIONS) \<or> variable (meta_of row) \<noteq> var)
     \<longleftrightarrow> ((variable (meta_of row) = var \<and> region (meta_of row) \<in> set regions_to_replace) = False)"
  by (auto simp: regions_to_replace_set regions_to_modify_set)

lemma base_run_untouched:
  "scm_filter (Some var) regions_to_replace False ds
     = filter (\<lambda>row. region (meta_of row) \<notin> set (''World'' # REGIONS) \<or> variable (meta_of row) \<noteq> var) ds"
  unfolding scm_filter_def untouched_iff by simp

text \<open>
  Claim C6. Whenever the reassembly returns a data set, it has as many rows as the
  interpolated scenario, and the rows whose region is not World or one of the five
  regions, or whose variable is not the fossil CO2 variable, are the same rows as before
  (every field, in the same order); in particular each of them is a row of the result.
\<close>

theorem reassembly_keeps_row_count_and_untouched_rows:
  assumes "new_run scen_t r_factors target_years = Inr out"
  shows "length out = length scen_t
       \<and> filter (\<lambda>row. region (meta_of row) \<notin> set (''World'' # REGIONS) \<or> variable (meta_of row) \<noteq> var) out
           = filter (\<lambda>row. region (meta_of row) \<notin> set (''World'' # REGIONS) \<or> variable (meta_of row) \<noteq> var) scen_t
       \<and> (\<forall>row\<in>set scen_t.
             region (meta_of row) \<notin> set (''World'' # REGIONS) \<or> variable (meta_of row) \<noteq> var
             \<longrightarrow> row \<in> set out)"
proof -
  let ?U = "\<lambda>row. region (meta_of row) \<notin> set (''World'' # REGIONS) \<or> variable (meta_of row) \<noteq> var"
  let ?W = "scm_filter (Some var) [''World''] True scen_t"
  from assms obtain adj r5 where a: "adjust scen_t r_factors target_years = Inr adj"
    and l: "loc_region regions_to_modify
           (map meta_of (scm_filter (Some var) regions_to_modify True scen_t)) = Inr r5"
    and n: "length ?W + length r5 = Suc (length adj)"
    and o: "out = scm_filter (Some var) regions_to_replace False scen_t
             @ map2 (\<lambda>m v. \<lparr>meta_of = m, vals = v\<rparr>)
                 (map meta_of ?W @ r5) (world_co2_series adj # map vals adj)"
    by (rule new_run_Inr)
  let ?rep = "map2 (\<lambda>m v. \<lparr>meta_of = m, vals = v\<rparr>)
                 (map meta_of ?W @ r5) (world_co2_series adj # map vals adj)"
  have len_rep: "length ?rep = length ?W + length (scm_filter (Some var) regions_to_modify True scen_t)"
    using n r5_length[OF l] by simp
  have count: "length out = length scen_t"
    unfolding o using len_rep scen_t_partition[of scen_t] by simp
  have rep_tracked: "\<not> ?U row" if "row \<in> set ?rep" for row
  proof -
    from that obtain m v where mv: "(m, v) \<in> set (zip (map meta_of ?W @ r5) (world_co2_series adj # map vals adj))"
      and row: "row = \<lparr>meta_of = m, vals = v\<rparr>" by auto
    from mv have "m \<in> set (map meta_of ?W) \<or> m \<in> set r5" by (auto dest: set_zip_leftD)
    then have "variable m = var \<and> region m \<in> set regions_to_replace"
    proof
      assume "m \<in> set (map meta_of ?W)"
      then show ?thesis by (auto simp: scm_filter_def regions_to_replace_set)
    next
      assume "m \<in> set r5"
      from r5_meta[OF l this] show ?thesis by (simp add: regions_to_replace_set)
    qed
    then show ?thesis unfolding untouched_iff row by simp
  qed
  have "filter ?U out = filter ?U (filter ?U scen_t) @ filter ?U ?rep"
    unfolding o base_run_untouched by simp
  also have "filter ?U ?rep = []" by (rule filter_none) (rule rep_tracked)
  finally have frame: "filter ?U out = filter ?U scen_t" by simp
  have "row \<in> set out" if "row \<in> set scen_t" "?U row" for row
  proof -
    from that have "row \<in> set (filter ?U scen_t)" by simp
    then have "row \<in> set (filter ?U out)" by (simp only: frame)
    then show ?thesis by simp
  qed
  with count frame show ?thesis by blast
qed

theorem reassembly_keeps_row_count_and_untouched_rows_witness:
  "\<exists>out. new_run example_scen [1, 0, 0, 0, 1 / 2] [2030, 2030, 2030, 2030, 2075] = Inr out
     \<and> length out = 9
     \<and> filter (\<lambda>row. region (meta_of row) \<notin> set (''World'' # REGIONS) \<or> variable (meta_of row) \<noteq> var) out
         = [mk_row ''World'' ''Emissions|CH4'' ''Mt CH4 / yr'' 300,
            mk_row ''World|R5LAM'' ''Emissions|CH4'' ''Mt CH4 / yr'' 30,
            mk_row ''World|Bunkers'' var ''Gt C / yr'' (1 / 4)]
     \<and> mk_row ''World|Bunkers'' var ''Gt C / yr'' (1 / 4) \<in> set out"
proof -
  let ?rs = "[1, 0, 0, 0, 1 / 2] :: real list"
  let ?ys = "[2030, 2030, 2030, 2030, 2075] :: int list"
  let ?U = "\<lambda>row. region (meta_of row) \<notin> set (''World'' # REGIONS) \<or> variable (meta_of row) \<noteq> var"
  have "\<not> isl (new_run example_scen ?rs ?ys)" by code_simp
  then obtain out where out: "new_run example_scen ?rs ?ys = Inr out"
    by (cases "new_run example_scen ?rs ?ys") auto
  note t = reassembly_keeps_row_count_and_untouched_rows[OF out]
  have n: "length example_scen = 9" by (simp add: example_scen_def)
  have f: "filter ?U example_scen
         = [mk_row ''World'' ''Emissions|CH4'' ''Mt CH4 / yr'' 300,
            mk_row ''World|R5LAM'' ''Emissions|CH4'' ''Mt CH4 / yr'' 30,
            mk_row ''World|Bunkers'' var ''Gt C / yr'' (1 / 4)]"
    by (simp add: example_scen_def mk_row_def REGIONS_def var_def)
  have b: "mk_row ''World|Bunkers'' var ''Gt C / yr'' (1 / 4) \<in> set example_scen"
    "?U (mk_row ''World|Bunkers'' var ''Gt C / yr'' (1 / 4))"
    by (simp_all add: example_scen_def mk_row_def REGIONS_def)
  from t b have "mk_row ''World|Bunkers'' var ''Gt C / yr'' (1 / 4) \<in> set out" by blast
  with t n f out show ?thesis by simp
qed

text \<open>
  Claim C5. Let the interpolated scenario hold one World row of the fossil CO2 variable.
  Then a reassembled data set holds one such row as well; its value in every grid year
  is the sum of the values of the regional fossil CO2 rows of the same data set, which
  are the adjusted series of \<open>reg_C02\<close>; and the data set is the same whatever values
  the World row had before (\<open>prior\<close> is any replacement for them).
\<close>

theorem world_row_is_sum_of_adjusted_regions:
  assumes "new_run scen_t r_factors target_years = Inr out"
    and "length (scm_filter (Some var) [''World''] True scen_t) = 1"
  shows "\<exists>w adj. scm_filter (Some var) [''World''] True out = [w]
           \<and> adjust scen_t r_factors target_years = Inr adj
           \<and> map vals (scm_filter (Some var) regions_to_modify True out) = map vals adj
           \<and> (\<forall>j<length years_numeric.
                 vals w ! j = (\<Sum>row\<leftarrow>scm_filter (Some var) regions_to_modify True out. vals row ! j))
           \<and> new_run (map (\<lambda>row. if region (meta_of row) = ''World'' \<and> variable (meta_of row) = var
                                  then row\<lparr>vals := prior row\<rparr> else row) scen_t)
                 r_factors target_years = Inr out"
proof -
  from assms(2) obtain w0 where w0: "scm_filter (Some var) [''World''] True scen_t = [w0]"
    by (cases "scm_filter (Some var) [''World''] True scen_t") auto
  from assms(1) w0 obtain adj r5 where a: "adjust scen_t r_factors target_years = Inr adj"
    and l: "loc_region regions_to_modify
           (map meta_of (scm_filter (Some var) regions_to_modify True scen_t)) = Inr r5"
    and n: "length r5 = length adj"
    and o: "out = scm_filter (Some var) regions_to_replace False scen_t
             @ \<lparr>meta_of = meta_of w0, vals = world_co2_series adj\<rparr>
             # map2 (\<lambda>m v. \<lparr>meta_of = m, vals = v\<rparr>) r5 (map vals adj)"
    by (rule new_run_shape)
  let ?w = "\<lparr>meta_of = meta_of w0, vals = world_co2_series adj\<rparr>"
  let ?regs = "map2 (\<lambda>m v. \<lparr>meta_of = m, vals = v\<rparr>) r5 (map vals adj)"
  have "w0 \<in> set (scm_filter (Some var) [''World''] True scen_t)" by (simp add: w0)
  then have mw: "variable (meta_of w0) = var" "region (meta_of w0) = ''World''"
    by (simp_all add: scm_filter_keep_mem)
  have n': "length r5 = length (map vals adj)" using n by simp
  note r5f = r5_rows_filter[OF r5_meta[OF l] n']
  have b1: "scm_filter (Some var) [''World''] True
              (scm_filter (Some var) regions_to_replace False scen_t) = []"
    by (rule base_run_no_tracked) (simp add: regions_to_replace_set)
  have b2: "scm_filter (Some var) regions_to_modify True
              (scm_filter (Some var) regions_to_replace False scen_t) = []"
    by (rule base_run_no_tracked) (auto simp: regions_to_replace_set)
  have world: "scm_filter (Some var) [''World''] True out = [?w]"
    unfolding o scm_filter_append scm_filter_Cons
    by (simp add: b1 r5f(2) mw)
  have regs: "scm_filter (Some var) regions_to_modify True out = ?regs"
    unfolding o scm_filter_append scm_filter_Cons
    by (simp add: b2 r5f(1) mw World_not_modified)
  have vs: "map vals ?regs = map vals adj" using n' by (rule replacement_rows(2))
  have sum: "vals ?w ! j = (\<Sum>row\<leftarrow>?regs. vals row ! j)" if "j < length years_numeric" for j
  proof -
    have "(\<Sum>row\<leftarrow>?regs. vals row ! j) = (\<Sum>v\<leftarrow>map vals ?regs. v ! j)"
      by (simp only: map_map o_def)
    also have "\<dots> = (\<Sum>row\<leftarrow>adj. vals row ! j)" unfolding vs by (simp add: o_def)
    finally show ?thesis using that by (simp add: world_co2_series_nth)
  qed
  have "new_run (map (\<lambda>row. if region (meta_of row) = ''World'' \<and> variable (meta_of row) = var
                                  then row\<lparr>vals := prior row\<rparr> else row) scen_t)
                 r_factors target_years = Inr out"
    using assms(1) by (simp only: new_run_ignores_world_values)
  with world regs vs sum a show ?thesis by (simp only: ) blast
qed

theorem world_row_is_sum_of_adjusted_regions_witness:
  "\<exists>out w. new_run example_scen [1, 0, 0, 0, 1 / 2] [2030, 2030, 2030, 2030, 2075] = Inr out
     \<and> length (scm_filter (Some var) [''World''] True example_scen) = 1
     \<and> scm_filter (Some var) [''World''] True out = [w]
     \<and> vals w ! 100 = (\<Sum>row\<leftarrow>scm_filter (Some var) regions_to_modify True out. vals row ! 100)
     \<and> map (\<lambda>row. vals row ! 100) (scm_filter (Some var) regions_to_modify True out) = [0, 2, 3, 4, 5 / 2]
     \<and> vals w ! 100 = 23 / 2"
proof -
  let ?rs = "[1, 0, 0, 0, 1 / 2] :: real list"
  let ?ys = "[2030, 2030, 2030, 2030, 2075] :: int list"
  have "\<not> isl (new_run example_scen ?rs ?ys)" by code_simp
  then obtain out where out: "new_run example_scen ?rs ?ys = Inr out"
    by (cases "new_run example_scen ?rs ?ys") auto
  have one: "length (scm_filter (Some var) [''World''] True example_scen) = 1" by code_simp
  from world_row_is_sum_of_adjusted_regions[OF out one]
  obtain w where w: "scm_filter (Some var) [''World''] True out = [w]"
    and s: "\<forall>j<length years_numeric.
              vals w ! j = (\<Sum>row\<leftarrow>scm_filter (Some var) regions_to_modify True out. vals row ! j)"
    by blast
  have "100 < length years_numeric" by (simp add: length_years_numeric)
  with s have s100: "vals w ! 100 = (\<Sum>row\<leftarrow>scm_filter (Some var) regions_to_modify True out. vals row ! 100)"
    by blast
  have "map_sum id (map (\<lambda>row. vals row ! 100) \<circ> scm_filter (Some var) regions_to_modify True)
          (new_run example_scen ?rs ?ys) = Inr [0, 2, 3, 4, 5 / 2]"
    by code_simp
  then have regs: "map (\<lambda>row. vals row ! 100) (scm_filter (Some var) regions_to_modify True out) = [0, 2, 3, 4, 5 / 2]"
    by (simp add: out)
  have "(\<Sum>row\<leftarrow>scm_filter (Some var) regions_to_modify True out. vals row ! 100) = 23 / 2"
    unfolding regs by simp
  with s100 have v: "vals w ! 100 = 23 / 2" by simp
  show ?thesis
    by (rule exI[of _ out], rule exI[of _ w]) (intro conjI out one w s100 regs v)
qed

section \<open>The labels of the replacement rows\<close>

lemma concat_singletons_labels:
  assumes "\<And>l. l \<in> set labels \<Longrightarrow> length (filter (\<lambda>m. region m = l) ms) = 1"
  shows "map region (concat (map (\<lambda>l. filter (\<lambda>m. region m = l) ms) labels)) = labels"
  using assms
proof (induction labels)
  case Nil
  then show ?case by simp
next
  case (Cons l ls)
  from Cons.prems[of l] obtain m where m: "filter (\<lambda>m. region m = l) ms = [m]"
    by (cases "filter (\<lambda>m. region m = l) ms") auto
  then have "m \<in> set (filter (\<lambda>m. region m = l) ms)" by simp
  then have "region m = l" by simp
  with m Cons show ?case by simp
qed

lemma filter_region_of_template:
  "l \<in> set rs \<Longrightarrow>
   filter (\<lambda>m. region m = l) (map meta_of (scm_filter (Some var) rs True scen_t))
     = map meta_of (scm_filter (Some var) [l] True scen_t)"
  by (induction scen_t) (auto simp: scm_filter_def)

text \<open>Which series stands under which label: when the scenario holds one fossil CO2 row
  for World and one for each region of \<open>regions_to_modify\<close>, the regional rows of the
  reassembled data set are, in this order, the labels of \<open>regions_to_modify\<close>, label \<open>k\<close>
  over the values of row \<open>k\<close> of \<open>reg_C02\<close>, whatever region that row belongs to.\<close>

lemma replacement_rows_by_position:
  assumes "new_run scen_t rs ys = Inr out"
    and "length (scm_filter (Some var) [''World''] True scen_t) = 1"
    and "list_all (\<lambda>l. length (scm_filter (Some var) [l] True scen_t) = 1) regions_to_modify"
  shows "\<exists>adj. adjust scen_t rs ys = Inr adj
           \<and> length adj = length regions_to_modify
           \<and> map (\<lambda>row. (region (meta_of row), vals row))
                 (scm_filter (Some var) regions_to_modify True out)
               = zip regions_to_modify (map vals adj)"
proof -
  from assms(2) obtain w0 where w0: "scm_filter (Some var) [''World''] True scen_t = [w0]"
    by (cases "scm_filter (Some var) [''World''] True scen_t") auto
  from assms(1) w0 obtain adj r5 where a: "adjust scen_t rs ys = Inr adj"
    and l: "loc_region regions_to_modify
           (map meta_of (scm_filter (Some var) regions_to_modify True scen_t)) = Inr r5"
    and n: "length r5 = length adj"
    and o: "out = scm_filter (Some var) regions_to_replace False scen_t
             @ \<lparr>meta_of = meta_of w0, vals = world_co2_series adj\<rparr>
             # map2 (\<lambda>m v. \<lparr>meta_of = m, vals = v\<rparr>) r5 (map vals adj)"
    by (rule new_run_shape)
  let ?regs = "map2 (\<lambda>m v. \<lparr>meta_of = m, vals = v\<rparr>) r5 (map vals adj)"
  have "w0 \<in> set (scm_filter (Some var) [''World''] True scen_t)" by (simp add: w0)
  then have mw: "variable (meta_of w0) = var" "region (meta_of w0) = ''World''"
    by (simp_all add: scm_filter_keep_mem)
  have n': "length r5 = length (map vals adj)" using n by simp
  note r5f = r5_rows_filter[OF r5_meta[OF l] n']
  have b2: "scm_filter (Some var) regions_to_modify True
              (scm_filter (Some var) regions_to_replace False scen_t) = []"
    by (rule base_run_no_tracked) (auto simp: regions_to_replace_set)
  have regs: "scm_filter (Some var) regions_to_modify True out = ?regs"
    unfolding o scm_filter_append scm_filter_Cons
    by (simp add: b2 r5f(1) mw World_not_modified)
  have one: "length (filter (\<lambda>m. region m = l)
                (map meta_of (scm_filter (Some var) regions_to_modify True scen_t))) = 1"
    if "l \<in> set regions_to_modify" for l
    using that assms(3) by (simp add: filter_region_of_template list_all_iff)
  have labels: "map region r5 = regions_to_modify"
    unfolding loc_region_Inr(1)[OF l] using one by (rule concat_singletons_labels)
  then have len: "length adj = length regions_to_modify"
    using n by (metis length_map)
  have "map (\<lambda>row. (region (meta_of row), vals row)) ?regs = zip (map region r5) (map vals adj)"
    using n' by (induction r5 "map vals adj" arbitrary: adj rule: list_induct2) auto
  with regs labels a len show ?thesis by simp
qed

text \<open>
  Claim C1. The claim: the output series labelled with a region is that region's own
  series times one minus that region's schedule. The source does otherwise. The rows of
  \<open>reg_C02\<close> stay in the order of the data frame and meet the caller's fractions by
  position (line 106); their values are then put under the metadata of
  \<open>regions_to_modify\<close>, in the order OECD, LAM, MAF, REF, ASIA (lines 126 to 142), while
  the caller's vectors follow \<open>REGIONS\<close>: LAM, MAF, ASIA, REF, OECD. Evaluated for the
  fractions \<open>[1, 0, 0, 0, 0]\<close> (R5LAM cut to zero by 2030) on regional series that are
  constant 1 (LAM), 2 (MAF), 3 (ASIA), 4 (REF), 5 (OECD), at the years 2000 and 2100:
  with the rows in the order of \<open>REGIONS\<close>, the row labelled R5OECD holds R5LAM's series
  and R5LAM's cut, and every other label holds another region's series; with the rows
  in the order OECD, REF, ASIA, MAF, LAM, the R5OECD series is cut by the fraction the
  caller gave for R5LAM. Lemma \<open>replacement_rows_by_position\<close> is the general form:
  label \<open>k\<close> of \<open>regions_to_modify\<close> over row \<open>k\<close> of the frame, for any order of the rows.
\<close>

theorem replacement_rows_carry_the_wrong_labels:
  "select_reg_C02 example_scen = Inr example_reg
   \<and> map_sum id (map (\<lambda>row. (region (meta_of row), [vals row ! 0, vals row ! 100])))
        (adjust example_scen [1, 0, 0, 0, 0] [2030, 2030, 2030, 2030, 2030])
       = Inr [(''World|R5LAM'', [1, 0]), (''World|R5MAF'', [2, 2]), (''World|R5ASIA'', [3, 3]),
              (''World|R5REF'', [4, 4]), (''World|R5OECD'', [5, 5])]
   \<and> map_sum id (map (\<lambda>row. (region (meta_of row), [vals row ! 0, vals row ! 100]))
                   \<circ> scm_filter (Some var) regions_to_modify True)
        (new_run example_scen [1, 0, 0, 0, 0] [2030, 2030, 2030, 2030, 2030])
       = Inr [(''World|R5OECD'', [1, 0]), (''World|R5LAM'', [2, 2]), (''World|R5MAF'', [3, 3]),
              (''World|R5REF'', [4, 4]), (''World|R5ASIA'', [5, 5])]
   \<and> map_sum id (map (\<lambda>row. (region (meta_of row), [vals row ! 0, vals row ! 100]))
                   \<circ> scm_filter (Some var) regions_to_modify True)
        (new_run example_scen_oecd_first [1, 0, 0, 0, 0] [2030, 2030, 2030, 2030, 2030])
       = Inr [(''World|R5OECD'', [5, 0]), (''World|R5LAM'', [4, 4]), (''World|R5MAF'', [3, 3]),
              (''World|R5REF'', [2, 2]), (''World|R5ASIA'', [1, 1])]"
  by code_simp

text \<open>
  Claim C4. The claim: the six replacement rows are World, then R5LAM, R5MAF, R5ASIA,
  R5REF, R5OECD. In the source their metadata follow \<open>regions_to_modify\<close>: the last six
  rows of the reassembled example are World, R5OECD, R5LAM, R5MAF, R5REF, R5ASIA, after
  the three untouched rows.
\<close>

theorem replacement_block_order:
  "map_sum id (map (\<lambda>row. region (meta_of row)) \<circ> drop 3)
        (new_run example_scen [0, 0, 0, 0, 0] [2050, 2050, 2050, 2050, 2050])
     = Inr [''World'', ''World|R5OECD'', ''World|R5LAM'', ''World|R5MAF'', ''World|R5REF'', ''World|R5ASIA'']
   \<and> ''World'' # REGIONS
     = [''World'', ''World|R5LAM'', ''World|R5MAF'', ''World|R5ASIA'', ''World|R5REF'', ''World|R5OECD'']
   \<and> map_sum id (map (\<lambda>row. region (meta_of row)) \<circ> take 3)
        (new_run example_scen [0, 0, 0, 0, 0] [2050, 2050, 2050, 2050, 2050])
     = Inr [''World'', ''World|R5LAM'', ''World|Bunkers'']"
  by code_simp

section \<open>A target year of 2025\<close>

text \<open>
  Claim C2. The claim: for every fraction \<open>r\<close> in \<open>[0, 1]\<close> and every target year \<open>y\<close>
  from 2025 to 2100 the schedule is 0 before 2025, linear from 0 in 2025 to \<open>r\<close> in \<open>y\<close>,
  and \<open>r\<close> after \<open>y\<close>. For a target year after 2025 this is lemma
  \<open>schedule_ramp_for_later_targets\<close>. For \<open>y = 2025\<close> the ramp has one sample,
  \<open>np.linspace(0, r, 1)\<close>, which is its start 0 and not \<open>r\<close>: with \<open>r = 1/2\<close> the schedule
  is 0 in 2024, 0 in 2025 (the target year) and 1/2 from 2026 on.
\<close>

theorem schedule_at_target_2025_half:
  "years_numeric ! 25 = 2025
   \<and> map_sum id (map (\<lambda>row. [row ! 24, row ! 25, row ! 26, row ! 100])) (R_phase [1 / 2] [2025])
       = Inr [[0, 0, 1 / 2, 1 / 2]]"
  by code_simp

text \<open>
  Claim C3. The claim: with the target year 2025 the schedule jumps to \<open>r\<close> at 2025. In
  the source the ramp of that region is \<open>np.linspace(0, r, 1) = [0]\<close>, written to the
  column of 2025, and \<open>r\<close> starts in the column of 2026: for \<open>r = 1\<close> the schedule is 0 in
  2024, 0 in 2025 and 1 in 2026, and the R5LAM series of the example keeps its value in
  2025 and is zero from 2026 on.
\<close>

theorem schedule_at_target_2025_full_cut:
  "np_linspace 0 1 (2025 - 2000 - start_index + 1) = Inr [0]
   \<and> map_sum id (map (\<lambda>row. [row ! 24, row ! 25, row ! 26])) (R_phase [1] [2025]) = Inr [[0, 0, 1]]
   \<and> map_sum id (map (\<lambda>row. (region (meta_of row), [vals row ! 24, vals row ! 25, vals row ! 26])))
        (adjust example_scen [1, 0, 0, 0, 0] [2025, 2025, 2025, 2025, 2025])
       = Inr [(''World|R5LAM'', [1, 1, 0]), (''World|R5MAF'', [2, 2, 2]), (''World|R5ASIA'', [3, 3, 3]),
              (''World|R5REF'', [4, 4, 4]), (''World|R5OECD'', [5, 5, 5])]"
  by code_simp

section \<open>Inputs out of range\<close>











end
